theory Spec2Isabelle
  imports Complex_Main "HOL-Library.Multiset"
begin

section \<open>Data model (shared/types.ts, server/drawing-state.ts)\<close>

text \<open>
  A JavaScript \<open>number\<close> that is only stored (coordinates, stroke width) is a \<open>real\<close>;
  the value of \<open>Date.now()\<close>, an integral count of milliseconds, is an \<open>int\<close>.
  The field \<open>id\<close> of the source is \<open>id'\<close> here, since \<open>id\<close> is the identity function
  of HOL.
\<close>

record Point =
  x :: real
  y :: real

record DrawingOperation =
  id' :: string
  userId :: string
  tool :: string
  color :: string
  strokeWidth :: real
  points :: "Point list"
  timestamp :: int

record RoomState =
  operations :: "DrawingOperation list"
  undoStack :: "DrawingOperation list"
  redoStack :: "DrawingOperation list"
  currentOperation :: "DrawingOperation option"

text \<open>The anonymous object type of the parameter \<open>data\<close> of \<open>startDraw\<close>.\<close>

record StartData =
  data_x :: real
  data_y :: real
  data_tool :: string
  data_color :: string
  data_strokeWidth :: real

text \<open>The private field \<open>states: Map<string, RoomState>\<close> of the class \<open>DrawingState\<close>.\<close>

type_synonym States = "string \<rightharpoonup> RoomState"

section \<open>The methods of DrawingState\<close>

text \<open>
  Every method takes the map of room states and returns its result together with the map
  after the call. A room state is an object held by reference in the map, so every
  assignment to one of its fields is written back under the room's key. The two readings
  of the environment, \<open>uuidv4()\<close> and \<open>Date.now()\<close>, are arguments (\<open>newId\<close>, \<open>now\<close>)
  of the methods that call them.
\<close>

definition getRoomState :: "string \<Rightarrow> States \<Rightarrow> RoomState \<times> States" where
  "getRoomState rid states =
     (case states rid of
        None \<Rightarrow>
          (let fresh = \<lparr>operations = [], undoStack = [], redoStack = [],
                        currentOperation = None\<rparr>
           in (fresh, states(rid \<mapsto> fresh)))
      | Some st \<Rightarrow> (st, states))"

definition startDraw ::
  "string \<Rightarrow> string \<Rightarrow> StartData \<Rightarrow> string \<Rightarrow> int \<Rightarrow> States \<Rightarrow> DrawingOperation \<times> States" where
  "startDraw rid uid dat newId now states =
     (let (st, states1) = getRoomState rid states;
          st1 = st\<lparr>redoStack := []\<rparr>;
          operation = \<lparr>id' = newId, userId = uid, tool = data_tool dat,
                       color = data_color dat, strokeWidth = data_strokeWidth dat,
                       points = [\<lparr>x = data_x dat, y = data_y dat\<rparr>], timestamp = now\<rparr>;
          st2 = st1\<lparr>currentOperation := Some operation\<rparr>
      in (operation, states1(rid \<mapsto> st2)))"

definition addPoint ::
  "string \<Rightarrow> string \<Rightarrow> real \<Rightarrow> real \<Rightarrow> string \<Rightarrow> int \<Rightarrow> States \<Rightarrow> DrawingOperation \<times> States" where
  "addPoint rid uid px py newId now states =
     (let (st, states1) = getRoomState rid states;
          operation = \<lparr>id' = newId, userId = uid, tool = ''brush'',
                       color = ''#000000'', strokeWidth = 5,
                       points = [\<lparr>x = px, y = py\<rparr>], timestamp = now\<rparr>;
          created = (operation, states1(rid \<mapsto> st\<lparr>currentOperation := Some operation\<rparr>))
      in case currentOperation st of
           None \<Rightarrow> created
         | Some cur \<Rightarrow>
             if userId cur = uid
             then (let cur1 = cur\<lparr>points := points cur @ [\<lparr>x = px, y = py\<rparr>]\<rparr>
                   in (cur1, states1(rid \<mapsto> st\<lparr>currentOperation := Some cur1\<rparr>)))
             else created)"

definition endDraw :: "string \<Rightarrow> string \<Rightarrow> States \<Rightarrow> DrawingOperation option \<times> States" where
  "endDraw rid uid states =
     (let (st, states1) = getRoomState rid states
      in case currentOperation st of
           None \<Rightarrow> (None, states1)
         | Some cur \<Rightarrow>
             if userId cur = uid
             then (Some cur,
                   states1(rid \<mapsto> st\<lparr>operations := operations st @ [cur],
                                      currentOperation := None\<rparr>))
             else (None, states1))"

definition undo :: "string \<Rightarrow> States \<Rightarrow> DrawingOperation option \<times> States" where
  "undo rid states =
     (let (st, states1) = getRoomState rid states
      in if length (operations st) = 0 then (None, states1)
         else (let operation = last (operations st)
               in (Some operation,
                   states1(rid \<mapsto> st\<lparr>operations := butlast (operations st),
                                      undoStack := undoStack st @ [operation]\<rparr>))))"

definition redo :: "string \<Rightarrow> States \<Rightarrow> DrawingOperation option \<times> States" where
  "redo rid states =
     (let (st, states1) = getRoomState rid states
      in if length (undoStack st) = 0 then (None, states1)
         else (let operation = last (undoStack st)
               in (Some operation,
                   states1(rid \<mapsto> st\<lparr>undoStack := butlast (undoStack st),
                                      operations := operations st @ [operation]\<rparr>))))"

definition clear :: "string \<Rightarrow> States \<Rightarrow> States" where
  "clear rid states =
     (let (st, states1) = getRoomState rid states
      in states1(rid \<mapsto> st\<lparr>operations := [], undoStack := [], redoStack := [],
                            currentOperation := None\<rparr>))"

definition getState :: "string \<Rightarrow> States \<Rightarrow> DrawingOperation list \<times> States" where
  "getState rid states =
     (let (st, states1) = getRoomState rid states in (operations st, states1))"

definition getOperation :: "string \<Rightarrow> string \<Rightarrow> States \<Rightarrow> DrawingOperation option \<times> States" where
  "getOperation rid operationId states =
     (let (st, states1) = getRoomState rid states
      in (case find (\<lambda>c. id' c = operationId) (operations st) of
            Some c \<Rightarrow> Some c
          | None \<Rightarrow> find (\<lambda>c. id' c = operationId) (undoStack st),
          states1))"

section \<open>Traces of calls\<close>

text \<open>
  The socket handlers of the server call one method of \<open>DrawingState\<close> per event; a
  trace is the list of those calls, in the order the single-threaded server runs them.
  \<open>roomOf\<close> reads a room the way every method does, through \<open>getRoomState\<close>.
\<close>

datatype Command =
    StartDraw string string StartData string int
  | AddPoint string string real real string int
  | EndDraw string string
  | Undo string
  | Redo string
  | Clear string

fun step :: "Command \<Rightarrow> States \<Rightarrow> States" where
  "step (StartDraw rid uid dat newId now) s = snd (startDraw rid uid dat newId now s)"
| "step (AddPoint rid uid px py newId now) s = snd (addPoint rid uid px py newId now s)"
| "step (EndDraw rid uid) s = snd (endDraw rid uid s)"
| "step (Undo rid) s = snd (undo rid s)"
| "step (Redo rid) s = snd (redo rid s)"
| "step (Clear rid) s = clear rid s"

fun run :: "Command list \<Rightarrow> States \<Rightarrow> States" where
  "run [] s = s"
| "run (c # cs) s = run cs (step c s)"

definition roomOf :: "string \<Rightarrow> States \<Rightarrow> RoomState" where
  "roomOf rid s = fst (getRoomState rid s)"

section \<open>Predicates on traces and rooms\<close>




text \<open>
  \<open>keepsSlot rid uid c\<close>: the call \<open>c\<close> is none of those that take an operation of user
  \<open>uid\<close> out of the slot of room \<open>rid\<close>: a \<open>startDraw\<close> or a \<open>clear\<close> on the room, an
  \<open>addPoint\<close> of another user on the room, the \<open>endDraw\<close> of the user on the room.
\<close>

fun keepsSlot :: "string \<Rightarrow> string \<Rightarrow> Command \<Rightarrow> bool" where
  "keepsSlot rid uid (StartDraw r u dat newId now) = (r \<noteq> rid)"
| "keepsSlot rid uid (AddPoint r u px py newId now) = (r \<noteq> rid \<or> u = uid)"
| "keepsSlot rid uid (EndDraw r u) = (r \<noteq> rid \<or> u \<noteq> uid)"
| "keepsSlot rid uid (Undo r) = True"
| "keepsSlot rid uid (Redo r) = True"
| "keepsSlot rid uid (Clear r) = (r \<noteq> rid)"

text \<open>\<open>strokesOf uid st\<close>: the operations of user \<open>uid\<close> on the two stacks of the room.\<close>

definition strokesOf :: "string \<Rightarrow> RoomState \<Rightarrow> DrawingOperation list" where
  "strokesOf uid st = filter (\<lambda>c. userId c = uid) (operations st @ undoStack st)"

section \<open>Reading a room after a call\<close>

text \<open>
  \<open>getRoomState\<close> returns the room and a map that holds it, so each method is described
  by what it does to \<open>roomOf\<close> of every room.
\<close>

lemma getRoomState_roomOf: "getRoomState rid s = (roomOf rid s, s(rid \<mapsto> roomOf rid s))"
  by (auto simp: roomOf_def getRoomState_def Let_def split: option.splits)

lemma roomOf_upd: "roomOf r (s(rid \<mapsto> st)) = (if r = rid then st else roomOf r s)"
  by (auto simp: roomOf_def getRoomState_def Let_def split: option.splits)

lemma roomOf_empty:
  "roomOf r Map.empty = \<lparr>operations = [], undoStack = [], redoStack = [], currentOperation = None\<rparr>"
  by (simp add: roomOf_def getRoomState_def Let_def)

lemma roomOf_startDraw:
  "roomOf r (snd (startDraw rid uid dat newId now s)) =
     (if r = rid
      then (roomOf rid s)\<lparr>redoStack := [], currentOperation := Some (fst (startDraw rid uid dat newId now s))\<rparr>
      else roomOf r s)"
  by (simp add: startDraw_def getRoomState_roomOf roomOf_upd Let_def)

lemma roomOf_addPoint:
  "roomOf r (snd (addPoint rid uid px py newId now s)) =
     (if r = rid
      then (roomOf rid s)\<lparr>currentOperation := Some (fst (addPoint rid uid px py newId now s))\<rparr>
      else roomOf r s)"
  by (simp add: addPoint_def getRoomState_roomOf roomOf_upd Let_def split: option.splits)

lemma roomOf_endDraw:
  "roomOf r (snd (endDraw rid uid s)) =
     (if r = rid
      then (case fst (endDraw rid uid s) of
              None \<Rightarrow> roomOf rid s
            | Some cur \<Rightarrow> (roomOf rid s)\<lparr>operations := operations (roomOf rid s) @ [cur],
                                        currentOperation := None\<rparr>)
      else roomOf r s)"
  by (simp add: endDraw_def getRoomState_roomOf roomOf_upd Let_def split: option.splits)

lemma roomOf_undo:
  "roomOf r (snd (undo rid s)) =
     (if r = rid \<and> operations (roomOf rid s) \<noteq> []
      then (roomOf rid s)\<lparr>operations := butlast (operations (roomOf rid s)),
                           undoStack := undoStack (roomOf rid s) @ [last (operations (roomOf rid s))]\<rparr>
      else roomOf r s)"
  by (simp add: undo_def getRoomState_roomOf roomOf_upd Let_def)

lemma roomOf_redo:
  "roomOf r (snd (redo rid s)) =
     (if r = rid \<and> undoStack (roomOf rid s) \<noteq> []
      then (roomOf rid s)\<lparr>undoStack := butlast (undoStack (roomOf rid s)),
                           operations := operations (roomOf rid s) @ [last (undoStack (roomOf rid s))]\<rparr>
      else roomOf r s)"
  by (simp add: redo_def getRoomState_roomOf roomOf_upd Let_def)

lemma roomOf_clear:
  "roomOf r (clear rid s) =
     (if r = rid
      then \<lparr>operations = [], undoStack = [], redoStack = [], currentOperation = None\<rparr>
      else roomOf r s)"
  by (simp add: clear_def getRoomState_roomOf roomOf_upd Let_def)

lemma fst_endDraw:
  "fst (endDraw rid uid s) =
     (case currentOperation (roomOf rid s) of
        None \<Rightarrow> None
      | Some cur \<Rightarrow> if userId cur = uid then Some cur else None)"
  by (simp add: endDraw_def getRoomState_roomOf split: option.splits)

lemma fst_startDraw:
  "fst (startDraw rid uid dat newId now s) =
     \<lparr>id' = newId, userId = uid, tool = data_tool dat,
                       color = data_color dat, strokeWidth = data_strokeWidth dat,
                       points = [\<lparr>x = data_x dat, y = data_y dat\<rparr>], timestamp = now\<rparr>"
  by (simp add: startDraw_def getRoomState_roomOf Let_def)

lemma fst_addPoint:
  "fst (addPoint rid uid px py newId now s) =
     (case currentOperation (roomOf rid s) of
        None \<Rightarrow> \<lparr>id' = newId, userId = uid, tool = ''brush'',
                       color = ''#000000'', strokeWidth = 5,
                       points = [\<lparr>x = px, y = py\<rparr>], timestamp = now\<rparr>
      | Some cur \<Rightarrow> if userId cur = uid then cur\<lparr>points := points cur @ [\<lparr>x = px, y = py\<rparr>]\<rparr>
           else \<lparr>id' = newId, userId = uid, tool = ''brush'',
                       color = ''#000000'', strokeWidth = 5,
                       points = [\<lparr>x = px, y = py\<rparr>], timestamp = now\<rparr>)"
  by (simp add: addPoint_def getRoomState_roomOf Let_def split: option.splits)

lemma other_rooms_undo: "r \<noteq> rid \<Longrightarrow> snd (undo rid s) r = s r"
  by (simp add: undo_def getRoomState_roomOf Let_def)

lemma other_rooms_redo: "r \<noteq> rid \<Longrightarrow> snd (redo rid s) r = s r"
  by (simp add: redo_def getRoomState_roomOf Let_def)

lemmas room_simps = roomOf_startDraw roomOf_addPoint roomOf_endDraw roomOf_undo roomOf_redo
  roomOf_clear roomOf_empty fst_endDraw fst_startDraw fst_addPoint

lemma fst_getState: "fst (getState rid s) = operations (roomOf rid s)"
  by (simp add: getState_def getRoomState_roomOf)

lemma fst_undo_empty: "operations (roomOf rid s) = [] \<Longrightarrow> fst (undo rid s) = None"
  by (simp add: undo_def getRoomState_roomOf)

lemma undo_clear: "undo rid (clear rid s) = (None, clear rid s)"
  by (auto simp: undo_def clear_def getRoomState_def Let_def split: option.splits)

section \<open>Invariants of traces\<close>








lemma slot_kept_step:
  assumes "currentOperation (roomOf rid s) = Some cur" and "userId cur = uid"
    and "keepsSlot rid uid c"
  shows "\<exists>ps. currentOperation (roomOf rid (step c s)) = Some (cur\<lparr>points := points cur @ ps\<rparr>)"
proof (cases c)
  case (AddPoint r u px py newId now)
  show ?thesis
  proof (cases "r = rid")
    case True
    with assms AddPoint have "u = uid" by simp
    with assms True have "currentOperation (roomOf rid (step c s)) =
        Some (cur\<lparr>points := points cur @ [\<lparr>x = px, y = py\<rparr>]\<rparr>)"
      unfolding AddPoint by (simp add: room_simps)
    then show ?thesis by blast
  next
    case False
    with assms have "currentOperation (roomOf rid (step c s)) = Some (cur\<lparr>points := points cur @ []\<rparr>)"
      unfolding AddPoint by (simp add: room_simps)
    then show ?thesis by blast
  qed
next
  case (StartDraw r u dat newId now)
  with assms have "currentOperation (roomOf rid (step c s)) = Some (cur\<lparr>points := points cur @ []\<rparr>)"
    by (simp add: room_simps)
  then show ?thesis by blast
next
  case (EndDraw r u)
  with assms have "currentOperation (roomOf rid (step c s)) = Some (cur\<lparr>points := points cur @ []\<rparr>)"
    by (auto simp: room_simps)
  then show ?thesis by blast
next
  case (Undo r)
  with assms have "currentOperation (roomOf rid (step c s)) = Some (cur\<lparr>points := points cur @ []\<rparr>)"
    by (auto simp: room_simps)
  then show ?thesis by blast
next
  case (Redo r)
  with assms have "currentOperation (roomOf rid (step c s)) = Some (cur\<lparr>points := points cur @ []\<rparr>)"
    by (auto simp: room_simps)
  then show ?thesis by blast
next
  case (Clear r)
  with assms have "currentOperation (roomOf rid (step c s)) = Some (cur\<lparr>points := points cur @ []\<rparr>)"
    by (simp add: room_simps)
  then show ?thesis by blast
qed

lemma slot_kept_run:
  "currentOperation (roomOf rid s) = Some cur \<Longrightarrow> userId cur = uid \<Longrightarrow>
   list_all (keepsSlot rid uid) cs \<Longrightarrow>
   \<exists>ps. currentOperation (roomOf rid (run cs s)) = Some (cur\<lparr>points := points cur @ ps\<rparr>)"
proof (induction cs arbitrary: s cur)
  case Nil
  then have "currentOperation (roomOf rid (run [] s)) = Some (cur\<lparr>points := points cur @ []\<rparr>)"
    by simp
  then show ?case by blast
next
  case (Cons c cs)
  from Cons.prems obtain ps where
    st: "currentOperation (roomOf rid (step c s)) = Some (cur\<lparr>points := points cur @ ps\<rparr>)"
    using slot_kept_step[of rid s cur uid c] by auto
  have "userId (cur\<lparr>points := points cur @ ps\<rparr>) = uid" using Cons.prems(2) by simp
  with Cons.IH[OF st] Cons.prems(3) obtain qs where
    "currentOperation (roomOf rid (run cs (step c s))) =
       Some (cur\<lparr>points := points cur @ ps @ qs\<rparr>)"
    by auto
  then show ?case by auto
qed

lemma created_slot:
  assumes "c0 = StartDraw rid uid dat newId now \<or>
           c0 = AddPoint rid uid px py newId now \<and> currentOperation (roomOf rid s) = None"
  shows "\<exists>cur. currentOperation (roomOf rid (step c0 s)) = Some cur \<and> userId cur = uid \<and>
               id' cur = newId \<and> timestamp cur = now"
  using assms by (auto simp: room_simps)

lemma created_then_kept:
  assumes "c0 = StartDraw rid uid dat newId now \<or>
           c0 = AddPoint rid uid px py newId now \<and> currentOperation (roomOf rid s) = None"
    and "list_all (keepsSlot rid uid) mid"
  shows "\<exists>cur. currentOperation (roomOf rid (run (c0 # mid) s)) = Some cur \<and> userId cur = uid \<and>
               id' cur = newId \<and> timestamp cur = now"
proof -
  from created_slot[OF assms(1)] obtain cur where
    c: "currentOperation (roomOf rid (step c0 s)) = Some cur" "userId cur = uid"
       "id' cur = newId" "timestamp cur = now"
    by blast
  from slot_kept_run[OF c(1) c(2) assms(2)] obtain ps where
    "currentOperation (roomOf rid (run mid (step c0 s))) = Some (cur\<lparr>points := points cur @ ps\<rparr>)"
    by blast
  then show ?thesis using c by simp
qed

text \<open>Authorship: only \<open>endDraw\<close> of a user puts an operation of that user on a stack.\<close>

lemma mset_filter_undo:
  "xs \<noteq> [] \<Longrightarrow>
   mset (filter P (butlast xs @ ys @ [last xs])) = mset (filter P (xs @ ys))"
  by (cases xs rule: rev_cases) auto

lemma mset_filter_redo:
  "ys \<noteq> [] \<Longrightarrow>
   mset (filter P ((xs @ [last ys]) @ butlast ys)) = mset (filter P (xs @ ys))"
  by (cases ys rule: rev_cases) auto

lemma strokesOf_step:
  assumes "c \<noteq> EndDraw rid uid"
  shows "mset (strokesOf uid (roomOf rid (step c s))) \<subseteq># mset (strokesOf uid (roomOf rid s))"
proof (cases c)
  case (EndDraw r u)
  then show ?thesis
    using assms
    by (auto simp: room_simps strokesOf_def split: option.splits)
next
  case (Undo r)
  show ?thesis
  proof (cases "r = rid \<and> operations (roomOf rid s) \<noteq> []")
    case True
    then have "strokesOf uid (roomOf rid (step c s)) =
        filter (\<lambda>c. userId c = uid) (butlast (operations (roomOf rid s)) @
          undoStack (roomOf rid s) @ [last (operations (roomOf rid s))])"
      unfolding Undo by (simp add: room_simps strokesOf_def)
    moreover have "mset (filter (\<lambda>c. userId c = uid) (butlast (operations (roomOf rid s)) @
          undoStack (roomOf rid s) @ [last (operations (roomOf rid s))])) =
        mset (filter (\<lambda>c. userId c = uid) (operations (roomOf rid s) @ undoStack (roomOf rid s)))"
      using True by (intro mset_filter_undo) simp
    ultimately show ?thesis by (simp only: strokesOf_def subset_mset.order_refl)
  next
    case False
    then have "roomOf rid (step c s) = roomOf rid s"
      unfolding Undo by (auto simp: room_simps)
    then show ?thesis by simp
  qed
next
  case (Redo r)
  show ?thesis
  proof (cases "r = rid \<and> undoStack (roomOf rid s) \<noteq> []")
    case True
    then have "strokesOf uid (roomOf rid (step c s)) =
        filter (\<lambda>c. userId c = uid) ((operations (roomOf rid s) @
          [last (undoStack (roomOf rid s))]) @ butlast (undoStack (roomOf rid s)))"
      unfolding Redo by (simp add: room_simps strokesOf_def)
    moreover have "mset (filter (\<lambda>c. userId c = uid) ((operations (roomOf rid s) @
          [last (undoStack (roomOf rid s))]) @ butlast (undoStack (roomOf rid s)))) =
        mset (filter (\<lambda>c. userId c = uid) (operations (roomOf rid s) @ undoStack (roomOf rid s)))"
      using True by (intro mset_filter_redo) simp
    ultimately show ?thesis by (simp only: strokesOf_def subset_mset.order_refl)
  next
    case False
    then have "roomOf rid (step c s) = roomOf rid s"
      unfolding Redo by (auto simp: room_simps)
    then show ?thesis by simp
  qed
qed (auto simp: room_simps strokesOf_def)

lemma strokesOf_run:
  "EndDraw rid uid \<notin> set cs \<Longrightarrow>
   mset (strokesOf uid (roomOf rid (run cs s))) \<subseteq># mset (strokesOf uid (roomOf rid s))"
proof (induction cs arbitrary: s)
  case Nil
  then show ?case by simp
next
  case (Cons c cs)
  then have "mset (strokesOf uid (roomOf rid (run cs (step c s)))) \<subseteq>#
             mset (strokesOf uid (roomOf rid (step c s)))"
    by simp
  moreover have "mset (strokesOf uid (roomOf rid (step c s))) \<subseteq># mset (strokesOf uid (roomOf rid s))"
    using Cons.prems by (intro strokesOf_step) auto
  ultimately show ?case by (simp add: subset_mset.order_trans)
qed

section \<open>The claims\<close>

subsection \<open>C1: strokes of distinct users\<close>

text \<open>
  Claim C1: under any interleaving of the calls of distinct users on one room, the stroke
  a user commits holds exactly the points that user sent, in order. The room has a single
  \<open>currentOperation\<close>: A starts at (0,0), B starts at (5,5), A adds (10,10), A ends, B
  ends. The committed log then holds one stroke of A with the single point (10,10), under
  the default brush of the fallback of \<open>addPoint\<close>, and no stroke of B.
\<close>

theorem interleaved_strokes_share_one_slot:
  "operations (roomOf ''default'' (run
     [StartDraw ''default'' ''A'' \<lparr>data_x = 0, data_y = 0, data_tool = ''brush'',
        data_color = ''#FF0000'', data_strokeWidth = 3\<rparr> ''op1'' 1,
      StartDraw ''default'' ''B'' \<lparr>data_x = 5, data_y = 5, data_tool = ''eraser'',
        data_color = ''#0000FF'', data_strokeWidth = 8\<rparr> ''op2'' 2,
      AddPoint ''default'' ''A'' 10 10 ''op3'' 3,
      EndDraw ''default'' ''A'',
      EndDraw ''default'' ''B''] Map.empty)) =
   [\<lparr>id' = ''op3'', userId = ''A'', tool = ''brush'', color = ''#000000'', strokeWidth = 5,
     points = [\<lparr>x = 10, y = 10\<rparr>], timestamp = 3\<rparr>]"
  by (simp add: room_simps)

subsection \<open>C2: startDraw over an operation in progress\<close>

text \<open>
  Claim C2, as stated: \<open>startDraw\<close> for a user whose operation is in progress fails and
  leaves that operation in place. Here the second \<open>startDraw\<close> of A replaces the
  operation in progress.
\<close>

theorem startDraw_replaces_own_operation:
  "currentOperation (roomOf ''default''
     (snd (startDraw ''default'' ''A'' \<lparr>data_x = 7, data_y = 7, data_tool = ''brush'',
             data_color = ''#FF0000'', data_strokeWidth = 3\<rparr> ''op2'' 2
        (snd (startDraw ''default'' ''A'' \<lparr>data_x = 0, data_y = 0, data_tool = ''brush'',
             data_color = ''#FF0000'', data_strokeWidth = 3\<rparr> ''op1'' 1 Map.empty))))) \<noteq>
   currentOperation (roomOf ''default''
        (snd (startDraw ''default'' ''A'' \<lparr>data_x = 0, data_y = 0, data_tool = ''brush'',
             data_color = ''#FF0000'', data_strokeWidth = 3\<rparr> ''op1'' 1 Map.empty)))"
  by (simp add: room_simps)

text \<open>
  Claim C2, amended: \<open>startDraw\<close> never fails. For a user whose operation is in
  progress it returns a new operation of one point, which takes the place of the old one
  as \<open>currentOperation\<close>; \<open>redoStack\<close> is emptied, \<open>operations\<close> and \<open>undoStack\<close> are
  unchanged.
\<close>

theorem startDraw_over_own_operation:
  assumes "currentOperation (roomOf rid s) = Some cur" and "userId cur = uid"
  shows "fst (startDraw rid uid dat newId now s) =
           \<lparr>id' = newId, userId = uid, tool = data_tool dat, color = data_color dat,
            strokeWidth = data_strokeWidth dat,
            points = [\<lparr>x = data_x dat, y = data_y dat\<rparr>], timestamp = now\<rparr> \<and>
         roomOf rid (snd (startDraw rid uid dat newId now s)) =
           \<lparr>operations = operations (roomOf rid s), undoStack = undoStack (roomOf rid s),
            redoStack = [],
            currentOperation = Some (fst (startDraw rid uid dat newId now s))\<rparr>"
  by (simp add: room_simps)

theorem startDraw_over_own_operation_witness:
  "currentOperation (roomOf ''default''
     (snd (startDraw ''default'' ''A'' \<lparr>data_x = 0, data_y = 0, data_tool = ''brush'',
        data_color = ''#FF0000'', data_strokeWidth = 3\<rparr> ''op1'' 1 Map.empty))) =
     Some \<lparr>id' = ''op1'', userId = ''A'', tool = ''brush'', color = ''#FF0000'',
           strokeWidth = 3, points = [\<lparr>x = 0, y = 0\<rparr>], timestamp = 1\<rparr> \<and>
   roomOf ''default''
     (snd (startDraw ''default'' ''A'' \<lparr>data_x = 7, data_y = 7, data_tool = ''eraser'',
        data_color = ''#00FF00'', data_strokeWidth = 9\<rparr> ''op2'' 2
       (snd (startDraw ''default'' ''A'' \<lparr>data_x = 0, data_y = 0, data_tool = ''brush'',
          data_color = ''#FF0000'', data_strokeWidth = 3\<rparr> ''op1'' 1 Map.empty)))) =
     \<lparr>operations = [], undoStack = [], redoStack = [],
      currentOperation = Some \<lparr>id' = ''op2'', userId = ''A'', tool = ''eraser'',
        color = ''#00FF00'', strokeWidth = 9, points = [\<lparr>x = 7, y = 7\<rparr>], timestamp = 2\<rparr>\<rparr>"
proof -
  let ?s = "snd (startDraw ''default'' ''A'' \<lparr>data_x = 0, data_y = 0, data_tool = ''brush'',
        data_color = ''#FF0000'', data_strokeWidth = 3\<rparr> ''op1'' 1 Map.empty)"
  let ?cur = "\<lparr>id' = ''op1'', userId = ''A'', tool = ''brush'', color = ''#FF0000'',
           strokeWidth = 3, points = [\<lparr>x = 0, y = 0\<rparr>], timestamp = 1\<rparr>"
  have h1: "currentOperation (roomOf ''default'' ?s) = Some ?cur"
    by (simp add: room_simps)
  have h2: "userId ?cur = ''A''" by simp
  show ?thesis
    using startDraw_over_own_operation[OF h1 h2, of "\<lparr>data_x = 7, data_y = 7,
      data_tool = ''eraser'', data_color = ''#00FF00'', data_strokeWidth = 9\<rparr>" "''op2''" 2] h1
    by (simp add: room_simps)
qed

subsection \<open>C3: the undone stack after a commit\<close>

text \<open>
  Claim C3: after every successful \<open>endDraw\<close> the stack that \<open>redo\<close> pops from is empty.
  \<open>redo\<close> pops from \<open>undoStack\<close>, while \<open>startDraw\<close> empties \<open>redoStack\<close>. A commits a
  stroke, it is undone, B commits a stroke: \<open>undoStack\<close> still holds the stroke of A, and a
  \<open>redo\<close> then puts it after the stroke of B.
\<close>

theorem commit_keeps_undone_stack:
  "fst (endDraw ''default'' ''B'' (run
     [StartDraw ''default'' ''A'' \<lparr>data_x = 0, data_y = 0, data_tool = ''brush'',
        data_color = ''#FF0000'', data_strokeWidth = 3\<rparr> ''op1'' 1,
      EndDraw ''default'' ''A'',
      Undo ''default'',
      StartDraw ''default'' ''B'' \<lparr>data_x = 5, data_y = 5, data_tool = ''brush'',
        data_color = ''#0000FF'', data_strokeWidth = 8\<rparr> ''op2'' 2] Map.empty)) =
     Some \<lparr>id' = ''op2'', userId = ''B'', tool = ''brush'', color = ''#0000FF'',
           strokeWidth = 8, points = [\<lparr>x = 5, y = 5\<rparr>], timestamp = 2\<rparr> \<and>
   undoStack (roomOf ''default'' (run
     [StartDraw ''default'' ''A'' \<lparr>data_x = 0, data_y = 0, data_tool = ''brush'',
        data_color = ''#FF0000'', data_strokeWidth = 3\<rparr> ''op1'' 1,
      EndDraw ''default'' ''A'',
      Undo ''default'',
      StartDraw ''default'' ''B'' \<lparr>data_x = 5, data_y = 5, data_tool = ''brush'',
        data_color = ''#0000FF'', data_strokeWidth = 8\<rparr> ''op2'' 2,
      EndDraw ''default'' ''B''] Map.empty)) =
     [\<lparr>id' = ''op1'', userId = ''A'', tool = ''brush'', color = ''#FF0000'',
       strokeWidth = 3, points = [\<lparr>x = 0, y = 0\<rparr>], timestamp = 1\<rparr>] \<and>
   map id' (operations (roomOf ''default'' (run
     [StartDraw ''default'' ''A'' \<lparr>data_x = 0, data_y = 0, data_tool = ''brush'',
        data_color = ''#FF0000'', data_strokeWidth = 3\<rparr> ''op1'' 1,
      EndDraw ''default'' ''A'',
      Undo ''default'',
      StartDraw ''default'' ''B'' \<lparr>data_x = 5, data_y = 5, data_tool = ''brush'',
        data_color = ''#0000FF'', data_strokeWidth = 8\<rparr> ''op2'' 2,
      EndDraw ''default'' ''B'',
      Redo ''default''] Map.empty))) = [''op2'', ''op1'']"
  by (simp add: room_simps)

subsection \<open>C4: addPoint without an operation in progress\<close>

text \<open>
  Claim C4, as stated: \<open>addPoint\<close> for a user with no operation in progress fails and
  changes nothing. On a room with no operation in progress it creates one, which a later
  \<open>endDraw\<close> of the user commits.
\<close>

theorem addPoint_without_operation_creates_one:
  "currentOperation (roomOf ''default'' Map.empty) = None \<and>
   currentOperation (roomOf ''default''
     (snd (addPoint ''default'' ''A'' 4 9 ''op1'' 1 Map.empty))) =
     Some \<lparr>id' = ''op1'', userId = ''A'', tool = ''brush'', color = ''#000000'',
           strokeWidth = 5, points = [\<lparr>x = 4, y = 9\<rparr>], timestamp = 1\<rparr> \<and>
   operations (roomOf ''default'' (run
     [AddPoint ''default'' ''A'' 4 9 ''op1'' 1, EndDraw ''default'' ''A''] Map.empty)) =
     [\<lparr>id' = ''op1'', userId = ''A'', tool = ''brush'', color = ''#000000'', strokeWidth = 5,
       points = [\<lparr>x = 4, y = 9\<rparr>], timestamp = 1\<rparr>]"
  by (simp add: room_simps)

text \<open>
  Claim C4, amended: on a room with no operation in progress \<open>addPoint\<close> never fails and
  commits nothing: \<open>operations\<close>, \<open>undoStack\<close> and \<open>redoStack\<close> are unchanged, and
  \<open>currentOperation\<close> becomes the operation it returns, a black brush stroke of width 5
  of the caller that holds the one point.
\<close>

theorem addPoint_on_idle_room:
  assumes "currentOperation (roomOf rid s) = None"
  shows "fst (addPoint rid uid px py newId now s) =
           \<lparr>id' = newId, userId = uid, tool = ''brush'', color = ''#000000'', strokeWidth = 5,
            points = [\<lparr>x = px, y = py\<rparr>], timestamp = now\<rparr> \<and>
         roomOf rid (snd (addPoint rid uid px py newId now s)) =
           \<lparr>operations = operations (roomOf rid s), undoStack = undoStack (roomOf rid s),
            redoStack = redoStack (roomOf rid s),
            currentOperation = Some (fst (addPoint rid uid px py newId now s))\<rparr>"
  using assms by (simp add: room_simps)

theorem addPoint_on_idle_room_witness:
  "currentOperation (roomOf ''default'' Map.empty) = None \<and>
   roomOf ''default'' (snd (addPoint ''default'' ''A'' 4 9 ''op1'' 1 Map.empty)) =
     \<lparr>operations = [], undoStack = [], redoStack = [],
      currentOperation = Some \<lparr>id' = ''op1'', userId = ''A'', tool = ''brush'',
        color = ''#000000'', strokeWidth = 5, points = [\<lparr>x = 4, y = 9\<rparr>], timestamp = 1\<rparr>\<rparr>"
proof -
  have h: "currentOperation (roomOf ''default'' Map.empty) = None"
    by (simp add: roomOf_empty)
  show ?thesis
    using addPoint_on_idle_room[OF h, of "''A''" 4 9 "''op1''" 1] h
    by (simp add: roomOf_empty)
qed

subsection \<open>C5: time stamps of committed operations\<close>




subsection \<open>C6: undo, then redo\<close>

text \<open>
  Claim C6: on a room whose committed log is not empty, \<open>undo\<close> followed at once by
  \<open>redo\<close> gives back the committed log, hence its multiset of ids: \<open>undo\<close> returns the
  last committed operation and pushes it on \<open>undoStack\<close>, \<open>redo\<close> pops the same operation
  and appends it to the log.
\<close>

theorem undo_redo_restores_committed:
  assumes "operations (roomOf rid s) \<noteq> []"
  shows "fst (undo rid s) = Some (last (operations (roomOf rid s))) \<and>
         fst (redo rid (snd (undo rid s))) = fst (undo rid s) \<and>
         operations (roomOf rid (snd (redo rid (snd (undo rid s))))) = operations (roomOf rid s) \<and>
         undoStack (roomOf rid (snd (redo rid (snd (undo rid s))))) = undoStack (roomOf rid s) \<and>
         mset (map id' (operations (roomOf rid (snd (redo rid (snd (undo rid s))))))) =
           mset (map id' (operations (roomOf rid s)))"
proof -
  have u: "fst (undo rid s) = Some (last (operations (roomOf rid s)))"
    using assms by (simp add: undo_def getRoomState_roomOf Let_def)
  have r: "fst (redo rid (snd (undo rid s))) = Some (last (operations (roomOf rid s)))"
    using assms by (simp add: redo_def getRoomState_roomOf Let_def roomOf_undo)
  have o: "operations (roomOf rid (snd (redo rid (snd (undo rid s))))) = operations (roomOf rid s)"
    using assms by (simp add: roomOf_redo roomOf_undo)
  have k: "undoStack (roomOf rid (snd (redo rid (snd (undo rid s))))) = undoStack (roomOf rid s)"
    using assms by (simp add: roomOf_redo roomOf_undo)
  show ?thesis using u r o k by simp
qed

theorem undo_redo_restores_committed_witness:
  "operations (roomOf ''default'' (run
     [StartDraw ''default'' ''A'' \<lparr>data_x = 0, data_y = 0, data_tool = ''brush'',
        data_color = ''#FF0000'', data_strokeWidth = 3\<rparr> ''op1'' 1,
      EndDraw ''default'' ''A''] Map.empty)) \<noteq> [] \<and>
   map id' (operations (roomOf ''default''
     (snd (redo ''default'' (snd (undo ''default'' (run
       [StartDraw ''default'' ''A'' \<lparr>data_x = 0, data_y = 0, data_tool = ''brush'',
          data_color = ''#FF0000'', data_strokeWidth = 3\<rparr> ''op1'' 1,
        EndDraw ''default'' ''A''] Map.empty))))))) = [''op1'']"
proof -
  let ?s = "run
     [StartDraw ''default'' ''A'' \<lparr>data_x = 0, data_y = 0, data_tool = ''brush'',
        data_color = ''#FF0000'', data_strokeWidth = 3\<rparr> ''op1'' 1,
      EndDraw ''default'' ''A''] Map.empty"
  have ops: "operations (roomOf ''default'' ?s) =
      [\<lparr>id' = ''op1'', userId = ''A'', tool = ''brush'', color = ''#FF0000'',
       strokeWidth = 3, points = [\<lparr>x = 0, y = 0\<rparr>], timestamp = 1\<rparr>]"
    by (simp add: room_simps)
  then have h: "operations (roomOf ''default'' ?s) \<noteq> []" by simp
  from undo_redo_restores_committed[OF h]
  have "operations (roomOf ''default'' (snd (redo ''default'' (snd (undo ''default'' ?s))))) =
          operations (roomOf ''default'' ?s)"
    by blast
  then show ?thesis using h ops by simp
qed

subsection \<open>C7: the snapshot holds committed operations only\<close>

text \<open>
  Claim C7: \<open>getState\<close> returns exactly the committed log, never an operation in
  progress; a stroke that is begun and never ended does not reach the log or a snapshot.
  From every state, after every trace without an \<open>endDraw\<close> of a user on a room: the
  snapshot of the room is its committed log; the strokes of the user on the two stacks of
  the room are, as a multiset, among those that were there before the trace; so every
  stroke of the user in the snapshot was on a stack before the trace, and nothing the
  user started or extended during the trace is in it.
\<close>

theorem getState_excludes_unended:
  assumes "EndDraw rid uid \<notin> set cmds"
  shows "fst (getState rid (run cmds s)) = operations (roomOf rid (run cmds s)) \<and>
         mset (strokesOf uid (roomOf rid (run cmds s))) \<subseteq># mset (strokesOf uid (roomOf rid s)) \<and>
         (\<forall>c \<in> set (fst (getState rid (run cmds s))).
            userId c = uid \<longrightarrow> c \<in> set (operations (roomOf rid s) @ undoStack (roomOf rid s)))"
proof -
  have sub: "mset (strokesOf uid (roomOf rid (run cmds s))) \<subseteq># mset (strokesOf uid (roomOf rid s))"
    using assms by (rule strokesOf_run)
  have "\<forall>c \<in> set (operations (roomOf rid (run cmds s))).
            userId c = uid \<longrightarrow> c \<in> set (operations (roomOf rid s) @ undoStack (roomOf rid s))"
  proof (intro ballI impI)
    fix c assume "c \<in> set (operations (roomOf rid (run cmds s)))" and "userId c = uid"
    then have "c \<in># mset (strokesOf uid (roomOf rid (run cmds s)))"
      by (simp add: strokesOf_def)
    with sub have "c \<in># mset (strokesOf uid (roomOf rid s))"
      by (rule mset_subset_eqD)
    then show "c \<in> set (operations (roomOf rid s) @ undoStack (roomOf rid s))"
      by (auto simp: strokesOf_def)
  qed
  then show ?thesis using sub by (simp add: fst_getState)
qed

theorem getState_excludes_unended_witness:
  "EndDraw ''default'' ''A'' \<notin> set
     [StartDraw ''default'' ''A'' \<lparr>data_x = 3, data_y = 3, data_tool = ''brush'',
        data_color = ''#FF0000'', data_strokeWidth = 3\<rparr> ''op2'' 2,
      AddPoint ''default'' ''A'' 10 10 ''op3'' 3,
      EndDraw ''default'' ''B'', Undo ''default'', Redo ''default''] \<and>
   length (strokesOf ''A'' (roomOf ''default'' (run
     [StartDraw ''default'' ''A'' \<lparr>data_x = 3, data_y = 3, data_tool = ''brush'',
        data_color = ''#FF0000'', data_strokeWidth = 3\<rparr> ''op2'' 2,
      AddPoint ''default'' ''A'' 10 10 ''op3'' 3,
      EndDraw ''default'' ''B'', Undo ''default'', Redo ''default'']
     (run [StartDraw ''default'' ''A'' \<lparr>data_x = 0, data_y = 0, data_tool = ''brush'',
        data_color = ''#FF0000'', data_strokeWidth = 3\<rparr> ''op1'' 1,
      EndDraw ''default'' ''A''] Map.empty)))) \<le> 1 \<and>
   map id' (fst (getState ''default'' (run
     [StartDraw ''default'' ''A'' \<lparr>data_x = 3, data_y = 3, data_tool = ''brush'',
        data_color = ''#FF0000'', data_strokeWidth = 3\<rparr> ''op2'' 2,
      AddPoint ''default'' ''A'' 10 10 ''op3'' 3,
      EndDraw ''default'' ''B'', Undo ''default'', Redo ''default'']
     (run [StartDraw ''default'' ''A'' \<lparr>data_x = 0, data_y = 0, data_tool = ''brush'',
        data_color = ''#FF0000'', data_strokeWidth = 3\<rparr> ''op1'' 1,
      EndDraw ''default'' ''A''] Map.empty)))) = [''op1'']"
proof -
  let ?s = "run [StartDraw ''default'' ''A'' \<lparr>data_x = 0, data_y = 0, data_tool = ''brush'',
        data_color = ''#FF0000'', data_strokeWidth = 3\<rparr> ''op1'' 1,
      EndDraw ''default'' ''A''] Map.empty"
  let ?cmds = "[StartDraw ''default'' ''A'' \<lparr>data_x = 3, data_y = 3, data_tool = ''brush'',
        data_color = ''#FF0000'', data_strokeWidth = 3\<rparr> ''op2'' 2,
      AddPoint ''default'' ''A'' 10 10 ''op3'' 3,
      EndDraw ''default'' ''B'', Undo ''default'', Redo ''default'']"
  have h: "EndDraw ''default'' ''A'' \<notin> set ?cmds" by simp
  have before: "length (strokesOf ''A'' (roomOf ''default'' ?s)) = 1"
    by (simp add: strokesOf_def room_simps)
  have ids: "map id' (fst (getState ''default'' (run ?cmds ?s))) = [''op1'']"
    by (simp add: fst_getState room_simps)
  from getState_excludes_unended[OF h, of ?s]
  have "mset (strokesOf ''A'' (roomOf ''default'' (run ?cmds ?s))) \<subseteq>#
        mset (strokesOf ''A'' (roomOf ''default'' ?s))"
    by (elim conjE)
  then have "size (mset (strokesOf ''A'' (roomOf ''default'' (run ?cmds ?s)))) \<le>
             size (mset (strokesOf ''A'' (roomOf ''default'' ?s)))"
    by (rule size_mset_mono)
  then have "length (strokesOf ''A'' (roomOf ''default'' (run ?cmds ?s))) \<le> 1"
    using before by (simp only: size_mset)
  then show ?thesis using h ids by (intro conjI)
qed

subsection \<open>C8: when the id is assigned\<close>

text \<open>
  Claim C8, as stated: the id is assigned by \<open>endDraw\<close>, not by \<open>startDraw\<close>. Here the
  operation that \<open>startDraw\<close> returns already has the id, and \<open>endDraw\<close> commits it under
  the same id.
\<close>

theorem id_assigned_at_startDraw:
  "id' (fst (startDraw ''default'' ''A'' \<lparr>data_x = 0, data_y = 0, data_tool = ''brush'',
        data_color = ''#FF0000'', data_strokeWidth = 3\<rparr> ''op1'' 1 Map.empty)) = ''op1'' \<and>
   map_option id' (fst (endDraw ''default'' ''A''
     (snd (startDraw ''default'' ''A'' \<lparr>data_x = 0, data_y = 0, data_tool = ''brush'',
        data_color = ''#FF0000'', data_strokeWidth = 3\<rparr> ''op1'' 1 Map.empty)))) = Some ''op1''"
  by (simp add: room_simps)

text \<open>
  Claim C8, amended: the id is assigned when the operation is created, by \<open>startDraw\<close>
  from \<open>uuidv4()\<close> (or by the fallback of \<open>addPoint\<close> on a room with no operation in
  progress), not at commit. It is stable from then on: while the calls that follow leave
  the operation in the slot, the slot holds it under that id; an \<open>addPoint\<close> of the user
  returns it under that id and stores what it returns; \<open>endDraw\<close> returns that operation
  and appends it to the committed log; a following \<open>undo\<close> and \<open>redo\<close> return that very
  operation.
\<close>

theorem id_stable_from_creation:
  assumes "c0 = StartDraw rid uid dat newId now \<or>
           c0 = AddPoint rid uid px py newId now \<and> currentOperation (roomOf rid s0) = None"
    and "list_all (keepsSlot rid uid) mid"
  shows "id' (fst (startDraw rid uid dat newId now s0)) = newId \<and>
         (\<exists>op. currentOperation (roomOf rid (run (c0 # mid) s0)) = Some op \<and>
            id' op = newId \<and>
            id' (fst (addPoint rid uid qx qy newId2 now2 (run (c0 # mid) s0))) = newId \<and>
            currentOperation (roomOf rid
                (snd (addPoint rid uid qx qy newId2 now2 (run (c0 # mid) s0)))) =
              Some (fst (addPoint rid uid qx qy newId2 now2 (run (c0 # mid) s0))) \<and>
            fst (endDraw rid uid (run (c0 # mid) s0)) = Some op \<and>
            operations (roomOf rid (snd (endDraw rid uid (run (c0 # mid) s0)))) =
              operations (roomOf rid (run (c0 # mid) s0)) @ [op] \<and>
            fst (undo rid (snd (endDraw rid uid (run (c0 # mid) s0)))) = Some op \<and>
            fst (redo rid (snd (undo rid (snd (endDraw rid uid (run (c0 # mid) s0)))))) = Some op)"
proof -
  let ?s = "run (c0 # mid) s0"
  from created_then_kept[OF assms] obtain cur where
    c: "currentOperation (roomOf rid ?s) = Some cur" "userId cur = uid" "id' cur = newId"
    by blast
  have e: "fst (endDraw rid uid ?s) = Some cur" using c by (simp add: fst_endDraw)
  have a: "id' (fst (addPoint rid uid qx qy newId2 now2 ?s)) = newId"
    using c by (simp add: fst_addPoint)
  have a2: "currentOperation (roomOf rid (snd (addPoint rid uid qx qy newId2 now2 ?s))) =
              Some (fst (addPoint rid uid qx qy newId2 now2 ?s))"
    by (simp add: roomOf_addPoint)
  have o: "operations (roomOf rid (snd (endDraw rid uid ?s))) = operations (roomOf rid ?s) @ [cur]"
    using e by (simp add: roomOf_endDraw)
  have u: "fst (undo rid (snd (endDraw rid uid ?s))) = Some cur"
    using o by (simp add: undo_def getRoomState_roomOf Let_def)
  have r: "fst (redo rid (snd (undo rid (snd (endDraw rid uid ?s))))) = Some cur"
    using o by (simp add: redo_def getRoomState_roomOf Let_def roomOf_undo)
  have i: "id' (fst (startDraw rid uid dat newId now s0)) = newId"
    by (simp add: fst_startDraw)
  show ?thesis using c e a a2 o u r i by blast
qed

theorem id_stable_from_creation_witness:
  "list_all (keepsSlot ''default'' ''A'') [AddPoint ''default'' ''A'' 10 10 ''op2'' 2, Undo ''default''] \<and>
   map id' (operations (roomOf ''default'' (snd (endDraw ''default'' ''A'' (run
     (StartDraw ''default'' ''A'' \<lparr>data_x = 0, data_y = 0, data_tool = ''brush'',
        data_color = ''#FF0000'', data_strokeWidth = 3\<rparr> ''op1'' 1 #
      [AddPoint ''default'' ''A'' 10 10 ''op2'' 2, Undo ''default'']) Map.empty))))) = [''op1'']"
proof -
  let ?c0 = "StartDraw ''default'' ''A'' \<lparr>data_x = 0, data_y = 0, data_tool = ''brush'',
        data_color = ''#FF0000'', data_strokeWidth = 3\<rparr> ''op1'' 1"
  let ?mid = "[AddPoint ''default'' ''A'' 10 10 ''op2'' 2, Undo ''default'']"
  let ?s = "run (?c0 # ?mid) Map.empty"
  have h1: "?c0 = StartDraw ''default'' ''A'' \<lparr>data_x = 0, data_y = 0, data_tool = ''brush'',
        data_color = ''#FF0000'', data_strokeWidth = 3\<rparr> ''op1'' 1 \<or>
      ?c0 = AddPoint ''default'' ''A'' 0 0 ''op1'' 1 \<and>
        currentOperation (roomOf ''default'' Map.empty) = None"
    by simp
  have h2: "list_all (keepsSlot ''default'' ''A'') ?mid" by simp
  have before: "operations (roomOf ''default'' ?s) = []"
    by (simp add: room_simps)
  from id_stable_from_creation[OF h1 h2, of 0 0 "''zz''" 0] obtain op where
    "id' op = ''op1''"
    "operations (roomOf ''default'' (snd (endDraw ''default'' ''A'' ?s))) =
       operations (roomOf ''default'' ?s) @ [op]"
    by (elim exE conjE)
  then have "map id' (operations (roomOf ''default'' (snd (endDraw ''default'' ''A'' ?s)))) =
      [''op1'']"
    using before by simp
  then show ?thesis using h2 by (intro conjI)
qed

subsection \<open>C9: clear, then undo\<close>

text \<open>
  Claim C9: \<open>clear\<close> empties the committed log, both stacks and the operation in
  progress of the room, whatever they held; \<open>undo\<close> on the cleared room returns null and
  leaves the server as \<open>clear\<close> left it. On any room whose committed log is empty
  \<open>undo\<close> returns null and changes no room.
\<close>

theorem clear_then_undo:
  "roomOf rid (clear rid s) =
     \<lparr>operations = [], undoStack = [], redoStack = [], currentOperation = None\<rparr> \<and>
   undo rid (clear rid s) = (None, clear rid s) \<and>
   (operations (roomOf rid s) = [] \<longrightarrow>
      fst (undo rid s) = None \<and> (\<forall>r. roomOf r (snd (undo rid s)) = roomOf r s))"
  by (simp add: roomOf_clear undo_clear fst_undo_empty roomOf_undo)

theorem clear_then_undo_witness:
  "operations (roomOf ''default'' Map.empty) = [] \<and>
   fst (undo ''default'' Map.empty) = None \<and>
   roomOf ''default'' (snd (undo ''default'' Map.empty)) = roomOf ''default'' Map.empty"
proof -
  have h: "operations (roomOf ''default'' Map.empty) = []"
    by (simp add: roomOf_empty)
  from clear_then_undo[of "''default''" Map.empty] h
  have "fst (undo ''default'' Map.empty) = None \<and>
        (\<forall>r. roomOf r (snd (undo ''default'' Map.empty)) = roomOf r Map.empty)"
    by blast
  then show ?thesis using h by simp
qed

subsection \<open>C10: what undo and redo leave alone\<close>

text \<open>
  Claim C10: \<open>undo\<close> and \<open>redo\<close> on a room leave the \<open>currentOperation\<close> (and the
  \<open>redoStack\<close>) of that room as they were, and leave the entry of every other room in the
  map unchanged.
\<close>

theorem undo_redo_frame:
  "currentOperation (roomOf rid (snd (undo rid s))) = currentOperation (roomOf rid s) \<and>
   redoStack (roomOf rid (snd (undo rid s))) = redoStack (roomOf rid s) \<and>
   currentOperation (roomOf rid (snd (redo rid s))) = currentOperation (roomOf rid s) \<and>
   redoStack (roomOf rid (snd (redo rid s))) = redoStack (roomOf rid s) \<and>
   (\<forall>r. r \<noteq> rid \<longrightarrow> snd (undo rid s) r = s r \<and> snd (redo rid s) r = s r)"
  by (simp add: roomOf_undo roomOf_redo other_rooms_undo other_rooms_redo)

theorem undo_redo_frame_witness:
  "''lobby'' \<noteq> ''default'' \<and>
   snd (undo ''default'' [''lobby'' \<mapsto> \<lparr>operations = [], undoStack = [], redoStack = [],
      currentOperation = None\<rparr>]) ''lobby'' =
     Some \<lparr>operations = [], undoStack = [], redoStack = [], currentOperation = None\<rparr> \<and>
   snd (redo ''default'' [''lobby'' \<mapsto> \<lparr>operations = [], undoStack = [], redoStack = [],
      currentOperation = None\<rparr>]) ''lobby'' =
     Some \<lparr>operations = [], undoStack = [], redoStack = [], currentOperation = None\<rparr>"
proof -
  let ?s = "[''lobby'' \<mapsto> \<lparr>operations = [], undoStack = [], redoStack = [],
      currentOperation = None\<rparr>]"
  have h: "''lobby'' \<noteq> ''default''" by simp
  have frame: "\<forall>r. r \<noteq> ''default'' \<longrightarrow>
      snd (undo ''default'' ?s) r = ?s r \<and> snd (redo ''default'' ?s) r = ?s r"
    using undo_redo_frame[of "''default''" ?s] by (elim conjE)
  have "snd (undo ''default'' ?s) ''lobby'' = ?s ''lobby'' \<and>
        snd (redo ''default'' ?s) ''lobby'' = ?s ''lobby''"
    using frame[THEN spec, THEN mp, OF h] .
  then show ?thesis using h by simp
qed

end
